theory Spec2Isabelle
  imports Main "HOL-Library.Word"
begin

unbundle bit_operations_syntax

section \<open>The TPM TIS frame decoder on the SPI bus (hw/tpm/tpm\_tis\_spi.c)\<close>

text \<open>
  The decoder is the function \<open>tpm_tis_spi_transfer8\<close>: the bus calls it once per byte,
  and it walks through the phases header, address, data. The three unions of the source
  overlay a value with its bytes; they are read here as on a little-endian host whose
  compiler puts the first bit-field member into the least significant bits (the layout of
  the x86-64 and AArch64 ABIs).
\<close>

subsection \<open>Data model\<close>

text \<open>The enum \<open>CMDState\<close>, with the values C gives its members.\<close>

definition STATE_IDLE :: "8 word" where
  "STATE_IDLE = 0"

definition STATE_ADDRESS :: "8 word" where
  "STATE_ADDRESS = 1"

definition STATE_DATA :: "8 word" where
  "STATE_DATA = 2"

text \<open>
  The union \<open>TpmTisRWSizeByte\<close>: the header byte and its three bit-fields, a 6-bit size
  in bits 5..0, one reserved bit (bit 6) and the read/write flag in bit 7.
\<close>

definition data_expected_size :: "8 word \<Rightarrow> 8 word" where
  "data_expected_size byte = byte AND 0x3F"

definition resv :: "8 word \<Rightarrow> bool" where
  "resv byte = bit byte 6"

definition rwflag :: "8 word \<Rightarrow> bool" where
  "rwflag byte = bit byte 7"

text \<open>
  The decoder's fields of \<open>struct TPMStateSpi\<close>. The phase that \<open>tpm_tis_spi_transfer8\<close>
  switches on and assigns (written \<open>s->state\<close> and \<open>tts->state\<close> there) is an enum value:
  it is the field \<open>spi_state\<close>, the member \<open>state\<close> of the struct being the device core
  \<open>TPMState\<close>. The device core is the register file behind the bus; it is kept beside the
  record, as a value of a type \<open>'d\<close> the decoder never looks into. \<open>addr\<close> is a
  \<open>hwaddr\<close> (64 bits in QEMU) and \<open>data\<close> a \<open>uint32_t\<close>, each overlaid with its bytes.
\<close>

record TPMStateSpi =
  spi_state :: "8 word"
  first_byte :: "8 word"
  addr :: "64 word"
  data :: "32 word"
  data_idx :: "8 word"
  addr_idx :: "8 word"

text \<open>
  The register file, of which the source only has the calls: \<open>tpm_tis_mmio_read\<close>
  (its result as assigned to the \<open>uint32_t r\<close>, and the device core after the read),
  \<open>tpm_tis_mmio_write\<close> and \<open>tpm_tis_reset\<close>. They are parameters of the model.
\<close>

record 'd tpm_tis =
  tpm_tis_mmio_read :: "'d \<Rightarrow> 64 word \<Rightarrow> nat \<Rightarrow> 32 word \<times> 'd"
  tpm_tis_mmio_write :: "'d \<Rightarrow> 64 word \<Rightarrow> 32 word \<Rightarrow> nat \<Rightarrow> 'd"
  tpm_tis_reset :: "'d \<Rightarrow> 'd"

text \<open>Every call of the register file is recorded, with its arguments.\<close>

datatype mmio_access =
  MmioRead "64 word" nat
| MmioWrite "64 word" "32 word" nat

text \<open>
  A store through the \<open>bytes\<close> member of a union at an index outside the array is
  undefined behaviour in C; the model stops there with a fault.
\<close>

datatype fault = OutOfBounds

text \<open>\<open>w.bytes[i] = b\<close> on a little-endian host: byte \<open>i\<close> is bits \<open>8 i + 7 .. 8 i\<close>.\<close>

definition set_byte :: "'a::len word \<Rightarrow> nat \<Rightarrow> 8 word \<Rightarrow> 'a word" where
  "set_byte w i b = (w AND NOT (push_bit (8 * i) 0xFF)) OR push_bit (8 * i) (ucast b)"

definition addr_bytes_store :: "64 word \<Rightarrow> 8 word \<Rightarrow> 8 word \<Rightarrow> fault + 64 word" where
  "addr_bytes_store a i b =
     (if unat i < 8 then Inr (set_byte a (unat i) b) else Inl OutOfBounds)"

definition data_bytes_store :: "32 word \<Rightarrow> 8 word \<Rightarrow> 8 word \<Rightarrow> fault + 32 word" where
  "data_bytes_store v i b =
     (if unat i < 4 then Inr (set_byte v (unat i) b) else Inl OutOfBounds)"

subsection \<open>The operations\<close>

text \<open>
  \<open>tpm_tis_spi_transfer8\<close>: the reply \<open>r\<close>, the device core and the decoder after the
  call, and the register-file calls made. The branches are those of the \<open>switch\<close>, in
  the order of the source; \<open>STATE_IDLE\<close> and \<open>default\<close> have the same body there.
\<close>

definition tpm_tis_spi_transfer8 ::
  "'d tpm_tis \<Rightarrow> 'd \<times> TPMStateSpi \<Rightarrow> 32 word
     \<Rightarrow> fault + (32 word \<times> ('d \<times> TPMStateSpi) \<times> mmio_access list)" where
  "tpm_tis_spi_transfer8 R c tx =
     (let d = fst c; tts = snd c in
      if spi_state tts = STATE_ADDRESS then
        (if addr_idx tts = 0 then
           Inr (0, (d, tts\<lparr>spi_state := STATE_DATA\<rparr>), [])
         else
           (let i = addr_idx tts - 1 in
            case addr_bytes_store (addr tts) i (ucast tx) of
              Inl e \<Rightarrow> Inl e
            | Inr a \<Rightarrow> Inr (0, (d, tts\<lparr>addr_idx := i, addr := a\<rparr>), [])))
      else if spi_state tts = STATE_DATA then
        (if data_idx tts = 0 then
           (let n = unat (data_expected_size (first_byte tts)) in
            if rwflag (first_byte tts) then
              (let rd = tpm_tis_mmio_read R d (addr tts) n in
               Inr (fst rd, (snd rd, tts\<lparr>spi_state := STATE_IDLE\<rparr>),
                    [MmioRead (addr tts) n]))
            else
              Inr (0, (tpm_tis_mmio_write R d (addr tts) (data tts) n,
                       tts\<lparr>spi_state := STATE_IDLE\<rparr>),
                   [MmioWrite (addr tts) (data tts) n]))
         else
           (let i = data_idx tts - 1 in
            case data_bytes_store (data tts) i (ucast tx) of
              Inl e \<Rightarrow> Inl e
            | Inr v \<Rightarrow> Inr (0, (d, tts\<lparr>data_idx := i, data := v\<rparr>), [])))
      else if spi_state tts = STATE_IDLE then
        Inr (0, (d, tts\<lparr>first_byte := ucast tx,
                        data_idx := data_expected_size (ucast tx),
                        spi_state := STATE_ADDRESS\<rparr>), [])
      else
        Inr (0, (d, tts\<lparr>first_byte := ucast tx,
                        data_idx := data_expected_size (ucast tx),
                        spi_state := STATE_ADDRESS\<rparr>), []))"

text \<open>
  \<open>tpm_tis_spi_reset\<close> hands the device core to \<open>tpm_tis_reset\<close> and does nothing else.
\<close>

definition tpm_tis_spi_reset ::
  "'d tpm_tis \<Rightarrow> 'd \<times> TPMStateSpi \<Rightarrow> ('d \<times> TPMStateSpi) \<times> mmio_access list" where
  "tpm_tis_spi_reset R c = ((tpm_tis_reset R (fst c), snd c), [])"

text \<open>\<open>tpm_tis_spi_initfn\<close> sets \<open>addr_idx\<close> to 3 in the new object.\<close>

definition tpm_tis_spi_initfn :: "TPMStateSpi \<Rightarrow> TPMStateSpi" where
  "tpm_tis_spi_initfn sbdev = sbdev\<lparr>addr_idx := 3\<rparr>"

text \<open>
  Modelled from the spec: the object before \<open>tpm_tis_spi_initfn\<close> runs, which the object
  system allocates outside this file. The spec has the decoder created in the state
  Idle; the object's memory is zero-filled, and \<open>STATE_IDLE\<close> is 0.
\<close>

definition new_object :: TPMStateSpi where
  "new_object = \<lparr>spi_state = STATE_IDLE, first_byte = 0, addr = 0, data = 0,
                 data_idx = 0, addr_idx = 0\<rparr>"

text \<open>
  The bus presents the bytes of a list one after the other; the run stops at a fault.
  The result has the replies, the final state and all register-file calls, in order.
\<close>

fun transfer_all ::
  "'d tpm_tis \<Rightarrow> 'd \<times> TPMStateSpi \<Rightarrow> 32 word list
     \<Rightarrow> fault + (32 word list \<times> ('d \<times> TPMStateSpi) \<times> mmio_access list)" where
  "transfer_all R c [] = Inr ([], c, [])"
| "transfer_all R c (tx # txs) =
     (case tpm_tis_spi_transfer8 R c tx of
        Inl e \<Rightarrow> Inl e
      | Inr (r, c', l) \<Rightarrow>
          (case transfer_all R c' txs of
             Inl e \<Rightarrow> Inl e
           | Inr (rs, c'', ls) \<Rightarrow> Inr (r # rs, c'', l @ ls)))"

text \<open>
  A register file for examples: it has no state of its own, answers every read with
  the same value and ignores writes.
\<close>

definition const_tis :: "32 word \<Rightarrow> unit tpm_tis" where
  "const_tis v = \<lparr>tpm_tis_mmio_read = (\<lambda>d a n. (v, d)),
                  tpm_tis_mmio_write = (\<lambda>d a w n. d),
                  tpm_tis_reset = (\<lambda>d. d)\<rparr>"

text \<open>
  What \<open>addr\<close> and \<open>data\<close> hold once the bytes of a list have been stored at falling
  indices, the last of them at index 0, as the two counters make it happen.
\<close>

fun addr_after :: "64 word \<Rightarrow> 32 word list \<Rightarrow> 64 word" where
  "addr_after a [] = a"
| "addr_after a (tx # txs) = addr_after (set_byte a (length txs) (ucast tx)) txs"

fun data_after :: "32 word \<Rightarrow> 32 word list \<Rightarrow> 32 word" where
  "data_after v [] = v"
| "data_after v (tx # txs) = data_after (set_byte v (length txs) (ucast tx)) txs"

text \<open>The phase after each call of a run, up to a fault.\<close>

fun phases :: "'d tpm_tis \<Rightarrow> 'd \<times> TPMStateSpi \<Rightarrow> 32 word list \<Rightarrow> 8 word list" where
  "phases R c [] = []"
| "phases R c (tx # txs) =
     (case tpm_tis_spi_transfer8 R c tx of
        Inl e \<Rightarrow> []
      | Inr (r, c', l) \<Rightarrow> spi_state (snd c') # phases R c' txs)"

text \<open>\<open>tpm_tis_spi_reset\<close> called \<open>n\<close> times in a row.\<close>

fun reset_times ::
  "'d tpm_tis \<Rightarrow> nat \<Rightarrow> 'd \<times> TPMStateSpi \<Rightarrow> ('d \<times> TPMStateSpi) \<times> mmio_access list" where
  "reset_times R 0 c = (c, [])"
| "reset_times R (Suc n) c =
     (let r1 = tpm_tis_spi_reset R c; r2 = reset_times R n (fst r1)
      in (fst r2, snd r1 @ snd r2))"


section \<open>Single calls\<close>

lemmas phase_defs = STATE_IDLE_def STATE_ADDRESS_def STATE_DATA_def

lemmas decoder_defs =
  tpm_tis_spi_transfer8_def tpm_tis_spi_initfn_def new_object_def const_tis_def
  addr_bytes_store_def data_bytes_store_def set_byte_def data_expected_size_def
  rwflag_def phase_defs

lemma transfer8_header:
  "spi_state s \<noteq> STATE_ADDRESS \<Longrightarrow> spi_state s \<noteq> STATE_DATA \<Longrightarrow>
   tpm_tis_spi_transfer8 R (d, s) tx =
     Inr (0, (d, s\<lparr>first_byte := ucast tx, data_idx := data_expected_size (ucast tx),
                    spi_state := STATE_ADDRESS\<rparr>), [])"
  by (simp add: tpm_tis_spi_transfer8_def)

lemma transfer8_address_done:
  "spi_state s = STATE_ADDRESS \<Longrightarrow> addr_idx s = 0 \<Longrightarrow>
   tpm_tis_spi_transfer8 R (d, s) tx = Inr (0, (d, s\<lparr>spi_state := STATE_DATA\<rparr>), [])"
  by (simp add: tpm_tis_spi_transfer8_def)

lemma transfer8_address_store:
  "spi_state s = STATE_ADDRESS \<Longrightarrow> addr_idx s \<noteq> 0 \<Longrightarrow> unat (addr_idx s) \<le> 8 \<Longrightarrow>
   tpm_tis_spi_transfer8 R (d, s) tx =
     Inr (0, (d, s\<lparr>addr_idx := addr_idx s - 1,
                    addr := set_byte (addr s) (unat (addr_idx s) - 1) (ucast tx)\<rparr>), [])"
  by (simp add: tpm_tis_spi_transfer8_def addr_bytes_store_def unat_minus_one phase_defs
      Let_def)

lemma transfer8_data_store:
  "spi_state s = STATE_DATA \<Longrightarrow> data_idx s \<noteq> 0 \<Longrightarrow> unat (data_idx s) \<le> 4 \<Longrightarrow>
   tpm_tis_spi_transfer8 R (d, s) tx =
     Inr (0, (d, s\<lparr>data_idx := data_idx s - 1,
                    data := set_byte (data s) (unat (data_idx s) - 1) (ucast tx)\<rparr>), [])"
  by (simp add: tpm_tis_spi_transfer8_def data_bytes_store_def unat_minus_one phase_defs
      Let_def)

lemma transfer8_read:
  "spi_state s = STATE_DATA \<Longrightarrow> data_idx s = 0 \<Longrightarrow> rwflag (first_byte s) \<Longrightarrow>
   tpm_tis_spi_transfer8 R (d, s) tx =
     Inr (fst (tpm_tis_mmio_read R d (addr s) (unat (data_expected_size (first_byte s)))),
          (snd (tpm_tis_mmio_read R d (addr s) (unat (data_expected_size (first_byte s)))),
           s\<lparr>spi_state := STATE_IDLE\<rparr>),
          [MmioRead (addr s) (unat (data_expected_size (first_byte s)))])"
  by (simp add: tpm_tis_spi_transfer8_def phase_defs Let_def)

lemma transfer8_write:
  "spi_state s = STATE_DATA \<Longrightarrow> data_idx s = 0 \<Longrightarrow> \<not> rwflag (first_byte s) \<Longrightarrow>
   tpm_tis_spi_transfer8 R (d, s) tx =
     Inr (0,
          (tpm_tis_mmio_write R d (addr s) (data s)
             (unat (data_expected_size (first_byte s))),
           s\<lparr>spi_state := STATE_IDLE\<rparr>),
          [MmioWrite (addr s) (data s) (unat (data_expected_size (first_byte s)))])"
  by (simp add: tpm_tis_spi_transfer8_def phase_defs Let_def)

section \<open>Byte stores\<close>

lemma bit_set_byte:
  fixes w :: "'a::len word"
  shows "bit (set_byte w i b) n \<longleftrightarrow>
           (if 8 * i \<le> n \<and> n < 8 * i + 8 then n < LENGTH('a) \<and> bit b (n - 8 * i)
            else bit w n)"
proof -
  have m: "(0xFF :: 'a word) = mask 8"
    by (simp add: mask_eq_exp_minus_1)
  show ?thesis
    unfolding set_byte_def m
    by (auto simp add: bit_simps dest: bit_imp_le_length)
qed

lemma set_byte_addr:
  fixes a :: "64 word" and b2 b1 b0 :: "8 word"
  assumes "drop_bit 24 a = 0"
  shows "set_byte (set_byte (set_byte a 2 b2) 1 b1) 0 b0
           = push_bit 16 (ucast b2) OR push_bit 8 (ucast b1) OR ucast b0"
proof (rule bit_word_eqI)
  fix n assume n: "n < LENGTH(64)"
  have hi: "\<not> bit a m" if "24 \<le> m" for m
  proof -
    from assms have "bit (drop_bit 24 a) (m - 24) = False" by simp
    with that show ?thesis by (simp add: bit_drop_bit_eq)
  qed
  show "bit (set_byte (set_byte (set_byte a 2 b2) 1 b1) 0 b0) n
      = bit (push_bit 16 (ucast b2 :: 64 word) OR push_bit 8 (ucast b1) OR ucast b0) n"
    using hi[of n] n
    by (auto simp add: bit_set_byte bit_simps dest: bit_imp_le_length)
qed

section \<open>Runs\<close>

lemma transfer_all_append:
  "transfer_all R c (xs @ ys) =
     (case transfer_all R c xs of
        Inl e \<Rightarrow> Inl e
      | Inr (rs, c', l) \<Rightarrow>
          (case transfer_all R c' ys of
             Inl e \<Rightarrow> Inl e
           | Inr (rs', c'', l') \<Rightarrow> Inr (rs @ rs', c'', l @ l')))"
  by (induction xs arbitrary: c) (auto split: sum.splits)

lemma data_phase:
  "spi_state s = STATE_DATA \<Longrightarrow> unat (data_idx s) = length ds \<Longrightarrow> length ds \<le> 4 \<Longrightarrow>
   transfer_all R (d, s) ds =
     Inr (replicate (length ds) 0,
          (d, s\<lparr>data_idx := 0, data := data_after (data s) ds\<rparr>), [])"
proof (induction ds arbitrary: s)
  case Nil
  then have "data_idx s = 0" by (simp add: unat_eq_zero)
  then show ?case by simp
next
  case (Cons tx ds)
  from Cons.prems have nz: "data_idx s \<noteq> 0" by auto
  let ?s = "s\<lparr>data_idx := data_idx s - 1,
               data := set_byte (data s) (unat (data_idx s) - 1) (ucast tx)\<rparr>"
  from Cons.prems nz have step: "tpm_tis_spi_transfer8 R (d, s) tx = Inr (0, (d, ?s), [])"
    by (simp add: transfer8_data_store)
  from Cons.prems nz have "unat (data_idx ?s) = length ds"
    by (simp add: unat_minus_one)
  with Cons.prems have "transfer_all R (d, ?s) ds =
     Inr (replicate (length ds) 0,
          (d, ?s\<lparr>data_idx := 0, data := data_after (data ?s) ds\<rparr>), [])"
    by (intro Cons.IH) simp_all
  with step Cons.prems show ?case by simp
qed

lemma address_phase:
  "spi_state s = STATE_ADDRESS \<Longrightarrow> unat (addr_idx s) = length as \<Longrightarrow> length as \<le> 8 \<Longrightarrow>
   transfer_all R (d, s) as =
     Inr (replicate (length as) 0,
          (d, s\<lparr>addr_idx := 0, addr := addr_after (addr s) as\<rparr>), [])"
proof (induction as arbitrary: s)
  case Nil
  then have "addr_idx s = 0" by (simp add: unat_eq_zero)
  then show ?case by simp
next
  case (Cons tx as)
  from Cons.prems have nz: "addr_idx s \<noteq> 0" by auto
  let ?s = "s\<lparr>addr_idx := addr_idx s - 1,
               addr := set_byte (addr s) (unat (addr_idx s) - 1) (ucast tx)\<rparr>"
  from Cons.prems nz have step: "tpm_tis_spi_transfer8 R (d, s) tx = Inr (0, (d, ?s), [])"
    by (simp add: transfer8_address_store)
  from Cons.prems nz have "unat (addr_idx ?s) = length as"
    by (simp add: unat_minus_one)
  with Cons.prems have "transfer_all R (d, ?s) as =
     Inr (replicate (length as) 0,
          (d, ?s\<lparr>addr_idx := 0, addr := addr_after (addr ?s) as\<rparr>), [])"
    by (intro Cons.IH) simp_all
  with step Cons.prems show ?case by simp
qed

lemma transfer_all_Cons_Inr:
  "tpm_tis_spi_transfer8 R c tx = Inr (r, c', l) \<Longrightarrow>
   transfer_all R c' txs = Inr (rs, c'', ls) \<Longrightarrow>
   transfer_all R c (tx # txs) = Inr (r # rs, c'', l @ ls)"
  by simp

lemma transfer_all_append_Inr:
  "transfer_all R c xs = Inr (rs, c', l) \<Longrightarrow>
   transfer_all R c' ys = Inr (rs', c'', l') \<Longrightarrow>
   transfer_all R c (xs @ ys) = Inr (rs @ rs', c'', l @ l')"
  by (simp add: transfer_all_append)

lemma first_transaction_data:
  assumes idle: "spi_state s \<noteq> STATE_ADDRESS" "spi_state s \<noteq> STATE_DATA"
    and seeded: "addr_idx s = 3"
    and len: "length ds = unat (data_expected_size (ucast h))" "length ds \<le> 4"
  shows "transfer_all R (d, s) (h # a2 # a1 # a0 # x # ds) =
     Inr (replicate (length ds + 5) 0,
          (d, s\<lparr>first_byte := ucast h, data_idx := 0, spi_state := STATE_DATA,
                addr_idx := 0, addr := addr_after (addr s) [a2, a1, a0],
                data := data_after (data s) ds\<rparr>), [])"
proof -
  let ?s1 = "s\<lparr>first_byte := ucast h, data_idx := data_expected_size (ucast h),
               spi_state := STATE_ADDRESS\<rparr>"
  let ?s2 = "?s1\<lparr>addr_idx := 0, addr := addr_after (addr ?s1) [a2, a1, a0]\<rparr>"
  let ?s3 = "?s2\<lparr>spi_state := STATE_DATA\<rparr>"
  let ?s4 = "?s3\<lparr>data_idx := 0, data := data_after (data ?s3) ds\<rparr>"
  have 1: "tpm_tis_spi_transfer8 R (d, s) h = Inr (0, (d, ?s1), [])"
    using idle by (rule transfer8_header)
  have 2: "transfer_all R (d, ?s1) [a2, a1, a0]
      = Inr (replicate (length [a2, a1, a0]) 0, (d, ?s2), [])"
    by (rule address_phase) (simp_all add: seeded)
  have 3: "tpm_tis_spi_transfer8 R (d, ?s2) x = Inr (0, (d, ?s3), [])"
    by (rule transfer8_address_done) simp_all
  have 4: "transfer_all R (d, ?s3) ds = Inr (replicate (length ds) 0, (d, ?s4), [])"
    by (rule data_phase) (simp_all add: len(1) [symmetric] len(2))
  have 34: "transfer_all R (d, ?s2) (x # ds) = Inr (0 # replicate (length ds) 0, (d, ?s4), [] @ [])"
    using 3 4 by (rule transfer_all_Cons_Inr)
  have 234: "transfer_all R (d, ?s1) ([a2, a1, a0] @ x # ds)
      = Inr (replicate (length [a2, a1, a0]) 0 @ 0 # replicate (length ds) 0, (d, ?s4),
             [] @ [] @ [])"
    using 2 34 by (rule transfer_all_append_Inr)
  have "transfer_all R (d, s) (h # [a2, a1, a0] @ x # ds)
      = Inr (0 # replicate (length [a2, a1, a0]) 0 @ 0 # replicate (length ds) 0, (d, ?s4),
             [] @ [] @ [] @ [])"
    using 1 234 by (rule transfer_all_Cons_Inr)
  moreover have "(0::32 word) # replicate (length [a2, a1, a0]) 0 @ 0 # replicate (length ds) 0
      = replicate (length ds + 5) 0"
    by (simp add: eval_nat_numeral)
  ultimately show ?thesis by simp
qed

lemma first_transaction:
  assumes idle: "spi_state s \<noteq> STATE_ADDRESS" "spi_state s \<noteq> STATE_DATA"
    and seeded: "addr_idx s = 3"
    and len: "length ds = unat (data_expected_size (ucast h))" "length ds \<le> 4"
  shows "transfer_all R (d, s) (h # a2 # a1 # a0 # x # ds @ [y]) =
     (let n = length ds; a = addr_after (addr s) [a2, a1, a0]; v = data_after (data s) ds;
          s' = s\<lparr>first_byte := ucast h, data_idx := 0, spi_state := STATE_IDLE,
                 addr_idx := 0, addr := a, data := v\<rparr>
      in if rwflag (ucast h) then
           Inr (replicate (n + 5) 0 @ [fst (tpm_tis_mmio_read R d a n)],
                (snd (tpm_tis_mmio_read R d a n), s'), [MmioRead a n])
         else
           Inr (replicate (n + 5) 0 @ [0],
                (tpm_tis_mmio_write R d a v n, s'), [MmioWrite a v n]))"
proof -
  let ?s4 = "s\<lparr>first_byte := ucast h, data_idx := 0, spi_state := STATE_DATA,
                addr_idx := 0, addr := addr_after (addr s) [a2, a1, a0],
                data := data_after (data s) ds\<rparr>"
  have run: "transfer_all R (d, s) (h # a2 # a1 # a0 # x # ds) =
     Inr (replicate (length ds + 5) 0, (d, ?s4), [])"
    using assms by (rule first_transaction_data)
  have app: "h # a2 # a1 # a0 # x # ds @ [y] = (h # a2 # a1 # a0 # x # ds) @ [y]"
    by simp
  show ?thesis
  proof (cases "rwflag (ucast h)")
    case True
    then have "tpm_tis_spi_transfer8 R (d, ?s4) y =
       Inr (fst (tpm_tis_mmio_read R d (addr ?s4) (unat (data_expected_size (first_byte ?s4)))),
          (snd (tpm_tis_mmio_read R d (addr ?s4) (unat (data_expected_size (first_byte ?s4)))),
           ?s4\<lparr>spi_state := STATE_IDLE\<rparr>),
          [MmioRead (addr ?s4) (unat (data_expected_size (first_byte ?s4)))])"
      by (intro transfer8_read) simp_all
    with run True len show ?thesis
      unfolding app transfer_all_append by (simp add: Let_def)
  next
    case False
    then have "tpm_tis_spi_transfer8 R (d, ?s4) y =
       Inr (0,
          (tpm_tis_mmio_write R d (addr ?s4) (data ?s4)
             (unat (data_expected_size (first_byte ?s4))),
           ?s4\<lparr>spi_state := STATE_IDLE\<rparr>),
          [MmioWrite (addr ?s4) (data ?s4) (unat (data_expected_size (first_byte ?s4)))])"
      by (intro transfer8_write) simp_all
    with run False len show ?thesis
      unfolding app transfer_all_append by (simp add: Let_def)
  qed
qed

section \<open>The counters\<close>




section \<open>Reset\<close>

lemma reset_times_decoder:
  "snd (fst (reset_times R n c)) = snd c \<and> snd (reset_times R n c) = []"
  by (induction n arbitrary: c) (simp_all add: tpm_tis_spi_reset_def Let_def)

lemma reset_times_core:
  "\<forall>d. tpm_tis_reset R (tpm_tis_reset R d) = tpm_tis_reset R d \<Longrightarrow>
   fst (fst (reset_times R (Suc n) c)) = tpm_tis_reset R (fst c)"
  by (induction n arbitrary: c) (simp_all add: tpm_tis_spi_reset_def Let_def)

text \<open>
  Claim C9. \<open>tpm_tis_spi_reset\<close> is idempotent and silent: after any number of
  consecutive calls (at least one) the decoder is what it is after a single call, and
  neither the calls in a row nor the single call invoke the register file's read or
  write, whatever the state, so also in the middle of a transaction. The device core is
  handed to \<open>tpm_tis_reset\<close>; where that function is idempotent, the whole state after
  several calls is the state after one.
\<close>

theorem reset_idempotent:
  "snd (fst (reset_times R (Suc n) c)) = snd (fst (tpm_tis_spi_reset R c))
   \<and> snd (reset_times R (Suc n) c) = [] \<and> snd (tpm_tis_spi_reset R c) = []
   \<and> ((\<forall>d. tpm_tis_reset R (tpm_tis_reset R d) = tpm_tis_reset R d)
        \<longrightarrow> reset_times R (Suc n) c = tpm_tis_spi_reset R c)"
proof -
  have dec: "snd (fst (reset_times R (Suc n) c)) = snd c"
    and log: "snd (reset_times R (Suc n) c) = []"
    using reset_times_decoder [of R "Suc n" c] by simp_all
  have one: "tpm_tis_spi_reset R c = ((tpm_tis_reset R (fst c), snd c), [])"
    by (simp add: tpm_tis_spi_reset_def)
  have "reset_times R (Suc n) c = tpm_tis_spi_reset R c"
    if "\<forall>d. tpm_tis_reset R (tpm_tis_reset R d) = tpm_tis_reset R d"
    using reset_times_core [OF that, of n c] dec log one
    by (metis prod.collapse)
  with dec log one show ?thesis by simp
qed

theorem reset_idempotent_witness:
  "(\<forall>d. tpm_tis_reset (const_tis 0) (tpm_tis_reset (const_tis 0) d) = tpm_tis_reset (const_tis 0) d)
   \<and> reset_times (const_tis 0) 3
        ((), \<lparr>spi_state = STATE_ADDRESS, first_byte = 0x84, addr = 0x1000, data = 0,
               data_idx = 4, addr_idx = 1\<rparr>)
      = tpm_tis_spi_reset (const_tis 0)
        ((), \<lparr>spi_state = STATE_ADDRESS, first_byte = 0x84, addr = 0x1000, data = 0,
               data_idx = 4, addr_idx = 1\<rparr>)"
  using reset_idempotent [of "const_tis 0" 2
        "((), \<lparr>spi_state = STATE_ADDRESS, first_byte = 0x84, addr = 0x1000, data = 0,
               data_idx = 4, addr_idx = 1\<rparr>)"]
  by (simp add: const_tis_def eval_nat_numeral)

section \<open>The reply\<close>





section \<open>The header\<close>




text \<open>
  Claim C5 at the header 0x05: the data counter is 5 when the data phase begins, above the
  4 bytes of \<open>data\<close>, and the first data byte is stored at index 4, outside the array.
\<close>

theorem oversize_header_faults:
  "transfer_all (const_tis 0) ((), tpm_tis_spi_initfn new_object) [0x05, 0, 0, 0, 0]
     = Inr ([0, 0, 0, 0, 0],
            ((), \<lparr>spi_state = STATE_DATA, first_byte = 0x05, addr = 0, data = 0,
                   data_idx = 5, addr_idx = 0\<rparr>), [])
   \<and> transfer_all (const_tis 0) ((), tpm_tis_spi_initfn new_object) [0x05, 0, 0, 0, 0, 0]
     = Inl OutOfBounds"
  by (simp add: decoder_defs)

text \<open>
  Claim C2 after a completed transaction: a write of size 0 at 0x112233 takes six calls;
  the next header leaves \<open>addr_idx\<close> at 0, so the byte 0x44 that follows only changes the
  phase, 0x55 triggers a second write at the old address 0x112233, and none of the bytes
  after the second header is stored as an address.
\<close>

theorem second_transaction_skips_address:
  "transfer_all (const_tis 0) ((), tpm_tis_spi_initfn new_object)
       [0x00, 0x11, 0x22, 0x33, 0x00, 0x00, 0x00]
     = Inr ([0, 0, 0, 0, 0, 0, 0],
            ((), \<lparr>spi_state = STATE_ADDRESS, first_byte = 0x00, addr = 0x112233, data = 0,
                   data_idx = 0, addr_idx = 0\<rparr>),
            [MmioWrite 0x112233 0 0])
   \<and> transfer_all (const_tis 0) ((), tpm_tis_spi_initfn new_object)
       [0x00, 0x11, 0x22, 0x33, 0x00, 0x00, 0x00, 0x44, 0x55]
     = Inr ([0, 0, 0, 0, 0, 0, 0, 0, 0],
            ((), \<lparr>spi_state = STATE_IDLE, first_byte = 0x00, addr = 0x112233, data = 0,
                   data_idx = 0, addr_idx = 0\<rparr>),
            [MmioWrite 0x112233 0 0, MmioWrite 0x112233 0 0])"
  by (simp add: decoder_defs)

section \<open>The first transaction\<close>

lemma transfer_all_take_silent:
  assumes "transfer_all R c txs = Inr (rs, c', [])"
  shows "\<exists>rs1 c1. transfer_all R c (take k txs) = Inr (rs1, c1, [])"
proof -
  have "transfer_all R c (take k txs @ drop k txs) = Inr (rs, c', [])"
    using assms by simp
  then show ?thesis
    unfolding transfer_all_append by (auto split: sum.splits)
qed

text \<open>
  Claim C1, as the specification has it, lets a transaction of size \<open>N\<close> end with the call
  1 + 3 + \<open>N\<close>. After the five bytes of its example the decoder has just entered the data
  phase: nothing was stored, the counter still is 4, and the register file was not called.
  The same holds for a write of size 1.
\<close>

theorem short_transaction_counterexample:
  "transfer_all (const_tis 0) ((), tpm_tis_spi_initfn new_object) [0x84, 0x00, 0x10, 0x00, 0xAB]
     = Inr ([0, 0, 0, 0, 0],
            ((), \<lparr>spi_state = STATE_DATA, first_byte = 0x84, addr = 0x1000, data = 0,
                   data_idx = 4, addr_idx = 0\<rparr>), [])
   \<and> transfer_all (const_tis 0) ((), tpm_tis_spi_initfn new_object) [0x01, 0x00, 0x10, 0x00, 0xAB]
     = Inr ([0, 0, 0, 0, 0],
            ((), \<lparr>spi_state = STATE_DATA, first_byte = 0x01, addr = 0x1000, data = 0,
                   data_idx = 1, addr_idx = 0\<rparr>), [])"
  by (simp add: decoder_defs)

text \<open>
  Claim C1, amended. In the first transaction after initialisation (phase Idle, address
  counter 3), with a size \<open>N \<le> 4\<close> in the header, the change of phase and the register
  access each take a call of their own, the one after the call that brought the counter
  to 0: none of the calls 1 (header) + 3 (address) + 1 + \<open>N\<close> (data) invokes the register
  file, after them the decoder is in the data phase with the counter at 0, and the next
  call, the last of \<open>N + 6\<close>, issues the one access of the transaction, a write of the
  stored data when bit 7 of the header is clear, and returns the decoder to Idle.
\<close>

theorem transaction_call_count:
  assumes "spi_state s = STATE_IDLE" and "addr_idx s = 3"
    and "length ds = unat (data_expected_size (ucast h))" and "length ds \<le> 4"
  shows "(\<forall>k \<le> length ds + 5. \<exists>rs c.
            transfer_all R (d, s) (take k (h # a2 # a1 # a0 # x # ds @ [y])) = Inr (rs, c, []))
       \<and> (\<exists>rs c. transfer_all R (d, s) (h # a2 # a1 # a0 # x # ds) = Inr (rs, c, [])
             \<and> spi_state (snd c) = STATE_DATA \<and> data_idx (snd c) = 0)
       \<and> (\<exists>rs c. transfer_all R (d, s) (h # a2 # a1 # a0 # x # ds @ [y]) =
             Inr (rs, c,
                  [if rwflag (ucast h)
                   then MmioRead (addr_after (addr s) [a2, a1, a0]) (length ds)
                   else MmioWrite (addr_after (addr s) [a2, a1, a0])
                          (data_after (data s) ds) (length ds)])
             \<and> spi_state (snd c) = STATE_IDLE)"
proof -
  from assms(1) have idle: "spi_state s \<noteq> STATE_ADDRESS" "spi_state s \<noteq> STATE_DATA"
    by (simp_all add: phase_defs)
  note before = first_transaction_data [OF idle assms(2-4), of R d a2 a1 a0 x]
  note whole = first_transaction [OF idle assms(2-4), of R d a2 a1 a0 x y]
  have "\<exists>rs c. transfer_all R (d, s) (take k (h # a2 # a1 # a0 # x # ds @ [y])) = Inr (rs, c, [])"
    if "k \<le> length ds + 5" for k
  proof -
    from that have "take k (h # a2 # a1 # a0 # x # ds @ [y]) = take k (h # a2 # a1 # a0 # x # ds)"
      using take_append [of k "h # a2 # a1 # a0 # x # ds" "[y]"] by simp
    with transfer_all_take_silent [OF before, of k] show ?thesis by simp
  qed
  moreover have "\<exists>rs c. transfer_all R (d, s) (h # a2 # a1 # a0 # x # ds) = Inr (rs, c, [])
             \<and> spi_state (snd c) = STATE_DATA \<and> data_idx (snd c) = 0"
    unfolding before by simp
  moreover have "\<exists>rs c. transfer_all R (d, s) (h # a2 # a1 # a0 # x # ds @ [y]) =
             Inr (rs, c,
                  [if rwflag (ucast h)
                   then MmioRead (addr_after (addr s) [a2, a1, a0]) (length ds)
                   else MmioWrite (addr_after (addr s) [a2, a1, a0])
                          (data_after (data s) ds) (length ds)])
             \<and> spi_state (snd c) = STATE_IDLE"
    unfolding whole by (simp add: Let_def)
  ultimately show ?thesis by blast
qed

theorem transaction_call_count_witness:
  "(\<exists>rs c. transfer_all (const_tis 0) ((), tpm_tis_spi_initfn new_object)
               [0x04, 0x00, 0x10, 0x00, 0x00, 0xAB, 0x01, 0x02, 0x03] = Inr (rs, c, [])
          \<and> spi_state (snd c) = STATE_DATA \<and> data_idx (snd c) = 0)
   \<and> (\<exists>rs c. transfer_all (const_tis 0) ((), tpm_tis_spi_initfn new_object)
               [0x04, 0x00, 0x10, 0x00, 0x00, 0xAB, 0x01, 0x02, 0x03, 0x00]
             = Inr (rs, c, [MmioWrite 0x1000 0xAB010203 4])
          \<and> spi_state (snd c) = STATE_IDLE)"
proof -
  have 1: "spi_state (tpm_tis_spi_initfn new_object) = STATE_IDLE"
    by (simp add: tpm_tis_spi_initfn_def new_object_def)
  have 2: "addr_idx (tpm_tis_spi_initfn new_object) = 3"
    by (simp add: tpm_tis_spi_initfn_def new_object_def)
  have 3: "length [0xAB, 0x01, 0x02, 0x03 :: 32 word]
             = unat (data_expected_size (ucast (0x04 :: 32 word)))"
    by (simp add: data_expected_size_def)
  have 4: "length [0xAB, 0x01, 0x02, 0x03 :: 32 word] \<le> 4"
    by simp
  show ?thesis
    using transaction_call_count [OF 1 2 3 4, where R = "const_tis 0" and d = "()"
        and ?a2.0 = "0x00" and ?a1.0 = "0x10" and ?a0.0 = "0x00" and x = "0x00" and y = "0x00"]
    by (simp add: decoder_defs)
qed

text \<open>
  Claim C4, as the specification has it, expects the register value in the reply to the
  fifth call. For the header 0x82 and a register file that answers 0x5A, the fifth call
  replies 0 and no read has been made.
\<close>

theorem read_reply_counterexample:
  "transfer_all (const_tis 0x5A) ((), tpm_tis_spi_initfn new_object) [0x82, 0x00, 0x20, 0x00, 0x00]
     = Inr ([0, 0, 0, 0, 0],
            ((), \<lparr>spi_state = STATE_DATA, first_byte = 0x82, addr = 0x2000, data = 0,
                   data_idx = 2, addr_idx = 0\<rparr>), [])"
  by (simp add: decoder_defs)

text \<open>
  Claim C4, amended. In a read transaction (bit 7 of the header set) that starts in the
  initial state with a size \<open>N \<le> 4\<close>, the register value is fetched once, by the last
  call of the transaction, the call \<open>N + 6\<close>, whose reply is the whole fetched value; the
  \<open>N + 5\<close> calls before it reply 0 and fetch nothing.
\<close>

theorem read_transaction_replies:
  assumes "spi_state s = STATE_IDLE" and "addr_idx s = 3" and "rwflag (ucast h)"
    and "length ds = unat (data_expected_size (ucast h))" and "length ds \<le> 4"
  shows "(\<exists>c. transfer_all R (d, s) (h # a2 # a1 # a0 # x # ds)
               = Inr (replicate (length ds + 5) 0, c, []))
       \<and> (\<exists>c. transfer_all R (d, s) (h # a2 # a1 # a0 # x # ds @ [y])
               = Inr (replicate (length ds + 5) 0
                        @ [fst (tpm_tis_mmio_read R d (addr_after (addr s) [a2, a1, a0])
                                  (length ds))],
                      c, [MmioRead (addr_after (addr s) [a2, a1, a0]) (length ds)]))"
proof -
  from assms(1) have idle: "spi_state s \<noteq> STATE_ADDRESS" "spi_state s \<noteq> STATE_DATA"
    by (simp_all add: phase_defs)
  note before = first_transaction_data [OF idle assms(2) assms(4,5), of R d a2 a1 a0 x]
  note whole = first_transaction [OF idle assms(2) assms(4,5), of R d a2 a1 a0 x y]
  show ?thesis
    unfolding before whole using assms(3) by (simp add: Let_def)
qed

theorem read_transaction_replies_witness:
  "(\<exists>c. transfer_all (const_tis 0x5A) ((), tpm_tis_spi_initfn new_object)
             [0x82, 0x00, 0x20, 0x00, 0x00, 0x00, 0x00] = Inr ([0, 0, 0, 0, 0, 0, 0], c, []))
   \<and> (\<exists>c. transfer_all (const_tis 0x5A) ((), tpm_tis_spi_initfn new_object)
             [0x82, 0x00, 0x20, 0x00, 0x00, 0x00, 0x00, 0x00]
           = Inr ([0, 0, 0, 0, 0, 0, 0, 0x5A], c, [MmioRead 0x2000 2]))"
proof -
  have 1: "spi_state (tpm_tis_spi_initfn new_object) = STATE_IDLE"
    by (simp add: tpm_tis_spi_initfn_def new_object_def)
  have 2: "addr_idx (tpm_tis_spi_initfn new_object) = 3"
    by (simp add: tpm_tis_spi_initfn_def new_object_def)
  have 3: "rwflag (ucast (0x82 :: 32 word))"
    by (simp add: rwflag_def)
  have 4: "length [0x00, 0x00 :: 32 word] = unat (data_expected_size (ucast (0x82 :: 32 word)))"
    by (simp add: data_expected_size_def)
  have 5: "length [0x00, 0x00 :: 32 word] \<le> 4"
    by simp
  show ?thesis
    using read_transaction_replies [OF 1 2 3 4 5, where R = "const_tis 0x5A" and d = "()"
        and ?a2.0 = "0x00" and ?a1.0 = "0x20" and ?a0.0 = "0x00" and x = "0x00" and y = "0x00"]
    by (simp add: decoder_defs)
qed

text \<open>
  The address of the first transaction. When the decoder is as initialised (phase Idle,
  address counter 3, no address stored yet) and the size is at most 4, the address bytes
  \<open>a2\<close>, \<open>a1\<close>, \<open>a0\<close>, fed in that order, make the address of the register access of the
  last call equal to \<open>a2 << 16 | a1 << 8 | a0\<close>.
\<close>

lemma address_assembly:
  fixes a2 a1 a0 :: "8 word"
  assumes "spi_state s = STATE_IDLE" and "addr_idx s = 3" and "drop_bit 24 (addr s) = 0"
    and "length ds = unat (data_expected_size (ucast h))" and "length ds \<le> 4"
  shows "\<exists>rs c. transfer_all R (d, s) (h # ucast a2 # ucast a1 # ucast a0 # x # ds @ [y]) =
           Inr (rs, c,
                [if rwflag (ucast h)
                 then MmioRead (push_bit 16 (ucast a2) OR push_bit 8 (ucast a1) OR ucast a0)
                        (length ds)
                 else MmioWrite (push_bit 16 (ucast a2) OR push_bit 8 (ucast a1) OR ucast a0)
                        (data_after (data s) ds) (length ds)])"
proof -
  from assms(1) have idle: "spi_state s \<noteq> STATE_ADDRESS" "spi_state s \<noteq> STATE_DATA"
    by (simp_all add: phase_defs)
  have u: "(ucast (ucast b :: 32 word) :: 8 word) = b" for b :: "8 word"
    by (rule ucast_up_ucast_id) (simp add: is_up)
  have "addr_after (addr s) [ucast a2, ucast a1, ucast a0]
          = set_byte (set_byte (set_byte (addr s) 2 a2) 1 a1) 0 a0"
    by (simp add: u numeral_2_eq_2)
  also have "\<dots> = push_bit 16 (ucast a2) OR push_bit 8 (ucast a1) OR ucast a0"
    using assms(3) by (rule set_byte_addr)
  finally have a: "addr_after (addr s) [ucast a2, ucast a1, ucast a0]
             = push_bit 16 (ucast a2) OR push_bit 8 (ucast a1) OR ucast a0" .
  note whole = first_transaction [OF idle assms(2) assms(4,5),
      of R d "ucast a2" "ucast a1" "ucast a0" x y]
  show ?thesis
    unfolding whole a by (simp add: Let_def)
qed

lemma address_assembly_example:
  "\<exists>rs c. transfer_all (const_tis 0) ((), tpm_tis_spi_initfn new_object)
             [0x01, ucast (0x12 :: 8 word), ucast (0x34 :: 8 word), ucast (0x56 :: 8 word),
              0x00, 0xAB, 0x00]
           = Inr (rs, c, [MmioWrite 0x123456 0xAB 1])"
proof -
  have 1: "spi_state (tpm_tis_spi_initfn new_object) = STATE_IDLE"
    by (simp add: tpm_tis_spi_initfn_def new_object_def)
  have 2: "addr_idx (tpm_tis_spi_initfn new_object) = 3"
    by (simp add: tpm_tis_spi_initfn_def new_object_def)
  have 3: "drop_bit 24 (addr (tpm_tis_spi_initfn new_object)) = 0"
    by (simp add: tpm_tis_spi_initfn_def new_object_def)
  have 4: "length [0xAB :: 32 word] = unat (data_expected_size (ucast (0x01 :: 32 word)))"
    by (simp add: data_expected_size_def)
  have 5: "length [0xAB :: 32 word] \<le> 4"
    by simp
  show ?thesis
    using address_assembly [OF 1 2 3 4 5, where R = "const_tis 0" and d = "()"
        and ?a2.0 = "0x12" and ?a1.0 = "0x34" and ?a0.0 = "0x56" and x = "0x00" and y = "0x00"]
    by (simp add: decoder_defs)
qed

text \<open>
  Claim C8 in a later transaction. After a first transaction at 0x123456 the address
  counter stays at 0: of the bytes 0xAA, 0xBB, 0xCC that follow the second header none is
  stored, 0xAA only changes the phase, 0xBB triggers the access, at the old address
  0x123456 and not at 0xAABBCC, and 0xCC is taken as the next header.
\<close>

theorem later_transaction_stale_address:
  "transfer_all (const_tis 0) ((), tpm_tis_spi_initfn new_object)
       [0x00, 0x12, 0x34, 0x56, 0x00, 0x00, 0x00, 0xAA, 0xBB, 0xCC]
     = Inr ([0, 0, 0, 0, 0, 0, 0, 0, 0, 0],
            ((), \<lparr>spi_state = STATE_ADDRESS, first_byte = 0xCC, addr = 0x123456, data = 0,
                   data_idx = 12, addr_idx = 0\<rparr>),
            [MmioWrite 0x123456 0 0, MmioWrite 0x123456 0 0])"
  by (simp add: decoder_defs)

section \<open>Register accesses\<close>

lemma transfer8_access:
  assumes "tpm_tis_spi_transfer8 R c tx = Inr (r, c', l)"
  shows "l = [] \<and> spi_state (snd c') \<noteq> STATE_IDLE
       \<or> (\<exists>a. l = [a]) \<and> spi_state (snd c) = STATE_DATA \<and> data_idx (snd c) = 0
           \<and> spi_state (snd c') = STATE_IDLE"
  using assms
  by (auto simp add: tpm_tis_spi_transfer8_def Let_def phase_defs
      split: if_splits sum.splits)

lemma transfer_all_silent:
  "transfer_all R c txs = Inr (rs, c', log) \<Longrightarrow> STATE_IDLE \<notin> set (phases R c txs)
   \<Longrightarrow> log = []"
proof (induction txs arbitrary: c rs log)
  case Nil
  then show ?case by simp
next
  case (Cons tx txs)
  from Cons.prems(1) obtain r c1 l rs1 log1
    where step: "tpm_tis_spi_transfer8 R c tx = Inr (r, c1, l)"
      and rest: "transfer_all R c1 txs = Inr (rs1, c', log1)"
      and log: "log = l @ log1"
    by (auto split: sum.splits)
  from Cons.prems(2) step have "spi_state (snd c1) \<noteq> STATE_IDLE"
    and no: "STATE_IDLE \<notin> set (phases R c1 txs)"
    by auto
  with transfer8_access [OF step] have "l = []" by auto
  moreover from rest no have "log1 = []" by (rule Cons.IH)
  ultimately show ?case using log by simp
qed

lemma phases_append:
  "transfer_all R c xs = Inr (rs, c', l) \<Longrightarrow>
   phases R c (xs @ ys) = phases R c xs @ phases R c' ys"
  by (induction xs arbitrary: c rs l) (auto split: sum.splits)

lemma transfer8_terminal:
  assumes "spi_state s = STATE_DATA" and "data_idx s = 0"
  shows "\<exists>r c. tpm_tis_spi_transfer8 R (d, s) tx =
           Inr (r, c,
                [if rwflag (first_byte s)
                 then MmioRead (addr s) (unat (data_expected_size (first_byte s)))
                 else MmioWrite (addr s) (data s) (unat (data_expected_size (first_byte s)))])
         \<and> spi_state (snd c) = STATE_IDLE"
proof (cases "rwflag (first_byte s)")
  case True
  with assms show ?thesis by (simp add: transfer8_read)
next
  case False
  with assms show ?thesis by (simp add: transfer8_write)
qed

text \<open>
  Claim C6, as the specification has it, puts the register access on the call that brings
  the data counter to 0. In a write of size 1 the call that stores the data byte takes
  the counter from 1 to 0 and invokes nothing; the access is made by the call after it,
  entered with the counter at 0.
\<close>

theorem access_step_counterexample:
  "transfer_all (const_tis 0) ((), tpm_tis_spi_initfn new_object)
       [0x01, 0x00, 0x10, 0x00, 0x00]
     = Inr ([0, 0, 0, 0, 0],
            ((), \<lparr>spi_state = STATE_DATA, first_byte = 0x01, addr = 0x1000, data = 0,
                   data_idx = 1, addr_idx = 0\<rparr>), [])
   \<and> tpm_tis_spi_transfer8 (const_tis 0)
        ((), \<lparr>spi_state = STATE_DATA, first_byte = 0x01, addr = 0x1000, data = 0,
               data_idx = 1, addr_idx = 0\<rparr>) 0xAB
     = Inr (0, ((), \<lparr>spi_state = STATE_DATA, first_byte = 0x01, addr = 0x1000, data = 0xAB,
                      data_idx = 0, addr_idx = 0\<rparr>), [])
   \<and> tpm_tis_spi_transfer8 (const_tis 0)
        ((), \<lparr>spi_state = STATE_DATA, first_byte = 0x01, addr = 0x1000, data = 0xAB,
               data_idx = 0, addr_idx = 0\<rparr>) 0x00
     = Inr (0, ((), \<lparr>spi_state = STATE_IDLE, first_byte = 0x01, addr = 0x1000, data = 0xAB,
                      data_idx = 0, addr_idx = 0\<rparr>), [MmioWrite 0x1000 0xAB 1])"
  by (simp add: decoder_defs)

text \<open>
  Claim C6, amended. Take any run of calls in which the decoder is not back in Idle
  before the last call (a transaction, whole or cut short). No call before the last one
  invokes the register file. The last call invokes it, once, exactly when it is entered
  in the data phase with the data counter already at 0, and it then returns the decoder
  to Idle: the transaction is complete; otherwise the last call invokes nothing and the
  decoder is not in Idle. Whatever the state, a call entered in the data phase with the
  counter at 0 returns, makes one access (a read or a write as the header says, at the
  stored address, with the size field as width) and ends in Idle; every other call, so
  every call in the phases Idle and Address, invokes nothing and does not end in Idle.
\<close>

theorem one_access_per_transaction:
  assumes run: "transfer_all R c txs = Inr (rs, c', log)"
    and ne: "txs \<noteq> []"
    and inside: "STATE_IDLE \<notin> set (butlast (phases R c txs))"
  shows "(\<exists>rs0 c0. transfer_all R c (butlast txs) = Inr (rs0, c0, [])
            \<and> (if spi_state (snd c0) = STATE_DATA \<and> data_idx (snd c0) = 0
                then (\<exists>a. log = [a]) \<and> spi_state (snd c') = STATE_IDLE
                else log = [] \<and> spi_state (snd c') \<noteq> STATE_IDLE))
       \<and> (\<forall>d1 s1 tx. spi_state s1 = STATE_DATA \<and> data_idx s1 = 0 \<longrightarrow>
            (\<exists>r c2. tpm_tis_spi_transfer8 R (d1, s1) tx =
               Inr (r, c2,
                    [if rwflag (first_byte s1)
                     then MmioRead (addr s1) (unat (data_expected_size (first_byte s1)))
                     else MmioWrite (addr s1) (data s1)
                            (unat (data_expected_size (first_byte s1)))])
               \<and> spi_state (snd c2) = STATE_IDLE))
       \<and> (\<forall>c1 tx r c2 l. tpm_tis_spi_transfer8 R c1 tx = Inr (r, c2, l)
              \<longrightarrow> \<not> (spi_state (snd c1) = STATE_DATA \<and> data_idx (snd c1) = 0)
              \<longrightarrow> l = [] \<and> spi_state (snd c2) \<noteq> STATE_IDLE)"
proof -
  from ne obtain pre tx where txs: "txs = pre @ [tx]"
    by (metis append_butlast_last_id)
  from run obtain rs0 c0 log0 r l
    where pre: "transfer_all R c pre = Inr (rs0, c0, log0)"
      and step: "tpm_tis_spi_transfer8 R c0 tx = Inr (r, c', l)"
      and log: "log = log0 @ l"
    unfolding txs transfer_all_append by (auto split: sum.splits)
  from step have "phases R c0 [tx] = [spi_state (snd c')]"
    by simp
  with phases_append [OF pre, of "[tx]"] have "butlast (phases R c txs) = phases R c pre"
    by (simp add: txs)
  with inside have "STATE_IDLE \<notin> set (phases R c pre)"
    by simp
  with pre have log0: "log0 = []"
    by (rule transfer_all_silent)
  have last: "if spi_state (snd c0) = STATE_DATA \<and> data_idx (snd c0) = 0
      then (\<exists>a. log = [a]) \<and> spi_state (snd c') = STATE_IDLE
      else log = [] \<and> spi_state (snd c') \<noteq> STATE_IDLE"
  proof (cases "spi_state (snd c0) = STATE_DATA \<and> data_idx (snd c0) = 0")
    case True
    with transfer8_terminal [of "snd c0" R "fst c0" tx] step log log0
    show ?thesis by auto
  next
    case False
    with transfer8_access [OF step] log log0 show ?thesis by auto
  qed
  from pre log0 last have first: "\<exists>rs0 c0. transfer_all R c (butlast txs) = Inr (rs0, c0, [])
            \<and> (if spi_state (snd c0) = STATE_DATA \<and> data_idx (snd c0) = 0
                then (\<exists>a. log = [a]) \<and> spi_state (snd c') = STATE_IDLE
                else log = [] \<and> spi_state (snd c') \<noteq> STATE_IDLE)"
    unfolding txs by (intro exI [of _ rs0] exI [of _ c0]) simp
  have second: "\<exists>r c2. tpm_tis_spi_transfer8 R (d1, s1) tx =
               Inr (r, c2,
                    [if rwflag (first_byte s1)
                     then MmioRead (addr s1) (unat (data_expected_size (first_byte s1)))
                     else MmioWrite (addr s1) (data s1)
                            (unat (data_expected_size (first_byte s1)))])
               \<and> spi_state (snd c2) = STATE_IDLE"
    if "spi_state s1 = STATE_DATA \<and> data_idx s1 = 0" for d1 s1 tx
    using that by (intro transfer8_terminal) simp_all
  have third: "l = [] \<and> spi_state (snd c2) \<noteq> STATE_IDLE"
    if "tpm_tis_spi_transfer8 R c1 tx = Inr (r, c2, l)"
      and "\<not> (spi_state (snd c1) = STATE_DATA \<and> data_idx (snd c1) = 0)" for c1 tx r c2 l
    using transfer8_access [OF that(1)] that(2) by auto
  from first second third show ?thesis by blast
qed

theorem one_access_per_transaction_witness:
  "(\<exists>rs0 c0. transfer_all (const_tis 0) ((), tpm_tis_spi_initfn new_object)
               [0x01, 0x00, 0x10, 0x00, 0x00, 0xAB] = Inr (rs0, c0, [])
           \<and> spi_state (snd c0) = STATE_DATA \<and> data_idx (snd c0) = 0)
   \<and> transfer_all (const_tis 0) ((), tpm_tis_spi_initfn new_object)
               [0x01, 0x00, 0x10, 0x00, 0x00, 0xAB, 0x00]
           = Inr ([0, 0, 0, 0, 0, 0, 0],
                  ((), \<lparr>spi_state = STATE_IDLE, first_byte = 0x01, addr = 0x1000, data = 0xAB,
                         data_idx = 0, addr_idx = 0\<rparr>),
                  [MmioWrite 0x1000 0xAB 1])"
proof -
  have 1: "transfer_all (const_tis 0) ((), tpm_tis_spi_initfn new_object)
             [0x01, 0x00, 0x10, 0x00, 0x00, 0xAB, 0x00]
           = Inr ([0, 0, 0, 0, 0, 0, 0],
                  ((), \<lparr>spi_state = STATE_IDLE, first_byte = 0x01, addr = 0x1000, data = 0xAB,
                         data_idx = 0, addr_idx = 0\<rparr>),
                  [MmioWrite 0x1000 0xAB 1])"
    by (simp add: decoder_defs)
  have 2: "[0x01, 0x00, 0x10, 0x00, 0x00, 0xAB, 0x00 :: 32 word] \<noteq> []"
    by simp
  have 3: "STATE_IDLE \<notin> set (butlast (phases (const_tis 0)
             ((), tpm_tis_spi_initfn new_object) [0x01, 0x00, 0x10, 0x00, 0x00, 0xAB, 0x00]))"
    by (simp add: decoder_defs)
  from one_access_per_transaction [OF 1 2 3]
  have "\<exists>rs0 c0. transfer_all (const_tis 0) ((), tpm_tis_spi_initfn new_object)
               (butlast [0x01, 0x00, 0x10, 0x00, 0x00, 0xAB, 0x00]) = Inr (rs0, c0, [])
            \<and> (if spi_state (snd c0) = STATE_DATA \<and> data_idx (snd c0) = 0
                then (\<exists>a. [MmioWrite 0x1000 0xAB 1] = [a])
                  \<and> spi_state (snd ((), \<lparr>spi_state = STATE_IDLE, first_byte = 0x01,
                        addr = 0x1000, data = 0xAB, data_idx = 0, addr_idx = 0\<rparr>)) = STATE_IDLE
                else [MmioWrite 0x1000 0xAB 1] = []
                  \<and> spi_state (snd ((), \<lparr>spi_state = STATE_IDLE, first_byte = 0x01,
                        addr = 0x1000, data = 0xAB, data_idx = 0, addr_idx = 0\<rparr>)) \<noteq> STATE_IDLE)"
    by (rule conjunct1)
  then have "\<exists>rs0 c0. transfer_all (const_tis 0) ((), tpm_tis_spi_initfn new_object)
               [0x01, 0x00, 0x10, 0x00, 0x00, 0xAB] = Inr (rs0, c0, [])
           \<and> spi_state (snd c0) = STATE_DATA \<and> data_idx (snd c0) = 0"
    by (simp split: if_splits)
  with 1 show ?thesis by simp
qed

section \<open>Bytes out of turn\<close>

lemma data_to_access:
  assumes "spi_state s = STATE_DATA" and "unat (data_idx s) \<le> 4"
  shows "\<exists>rs c a. transfer_all R (d, s) (replicate (unat (data_idx s)) 0 @ [0]) = Inr (rs, c, [a])"
proof -
  let ?ds = "replicate (unat (data_idx s)) (0 :: 32 word)"
  let ?s1 = "s\<lparr>data_idx := 0, data := data_after (data s) ?ds\<rparr>"
  have run: "transfer_all R (d, s) ?ds = Inr (replicate (length ?ds) 0, (d, ?s1), [])"
    by (rule data_phase) (simp_all add: assms)
  have "\<exists>r c a. tpm_tis_spi_transfer8 R (d, ?s1) 0 = Inr (r, c, [a])"
  proof (cases "rwflag (first_byte ?s1)")
    case True
    with assms(1) show ?thesis by (simp add: transfer8_read)
  next
    case False
    with assms(1) show ?thesis by (simp add: transfer8_write)
  qed
  then obtain r c a where "tpm_tis_spi_transfer8 R (d, ?s1) 0 = Inr (r, c, [a])"
    by blast
  then have "transfer_all R (d, ?s1) [0] = Inr ([r], c, [a])"
    by simp
  with run have "transfer_all R (d, s) (?ds @ [0]) = Inr (replicate (length ?ds) 0 @ [r], c, [] @ [a])"
    by (rule transfer_all_append_Inr)
  then have "transfer_all R (d, s) (?ds @ [0]) = Inr (replicate (length ?ds) 0 @ [r], c, [a])"
    by (simp only: append_Nil)
  then show ?thesis by blast
qed

lemma address_to_access:
  assumes "spi_state s = STATE_ADDRESS" and "unat (addr_idx s) \<le> 8" and "unat (data_idx s) \<le> 4"
  shows "\<exists>txs rs c a. transfer_all R (d, s) txs = Inr (rs, c, [a])"
proof -
  let ?as = "replicate (unat (addr_idx s)) (0 :: 32 word)"
  let ?s1 = "s\<lparr>addr_idx := 0, addr := addr_after (addr s) ?as\<rparr>"
  let ?s2 = "?s1\<lparr>spi_state := STATE_DATA\<rparr>"
  have 1: "transfer_all R (d, s) ?as = Inr (replicate (length ?as) 0, (d, ?s1), [])"
    by (rule address_phase) (simp_all add: assms)
  have 2: "tpm_tis_spi_transfer8 R (d, ?s1) 0 = Inr (0, (d, ?s2), [])"
    by (rule transfer8_address_done) (simp_all add: assms)
  from data_to_access [of ?s2 R d] assms(3) obtain rs c a
    where 3: "transfer_all R (d, ?s2) (replicate (unat (data_idx ?s2)) 0 @ [0]) = Inr (rs, c, [a])"
    by auto
  from 2 3 have "transfer_all R (d, ?s1) (0 # replicate (unat (data_idx ?s2)) 0 @ [0])
      = Inr (0 # rs, c, [] @ [a])"
    by (rule transfer_all_Cons_Inr)
  with 1 have "transfer_all R (d, s) (?as @ 0 # replicate (unat (data_idx ?s2)) 0 @ [0])
      = Inr (replicate (length ?as) 0 @ 0 # rs, c, [] @ [] @ [a])"
    by (rule transfer_all_append_Inr)
  then have "transfer_all R (d, s) (?as @ 0 # replicate (unat (data_idx ?s2)) 0 @ [0])
      = Inr (replicate (length ?as) 0 @ 0 # rs, c, [a])"
    by (simp only: append_Nil)
  then show ?thesis by blast
qed

text \<open>
  Claim C7, as the specification has it, has the decoder refuse all register accesses
  after a byte out of turn, until a reset. After a header of size 0 and its address, the
  bytes that follow (among them the data byte 0xFF that the header did not announce) are
  taken in turn: the sixth call writes, the next byte is a header again, and the ninth
  call writes a second time, with no reset in between.
\<close>

theorem confused_state_counterexample:
  "transfer_all (const_tis 0) ((), tpm_tis_spi_initfn new_object)
       [0x00, 0x00, 0x00, 0x00, 0x00, 0xFF, 0x00, 0x00, 0x00]
     = Inr ([0, 0, 0, 0, 0, 0, 0, 0, 0],
            ((), \<lparr>spi_state = STATE_IDLE, first_byte = 0x00, addr = 0, data = 0,
                   data_idx = 0, addr_idx = 0\<rparr>),
            [MmioWrite 0 0 0, MmioWrite 0 0 0])"
  by (simp add: decoder_defs)

text \<open>
  Claim C7, amended. The decoder has no Confused state and detects no bytes out of turn:
  with a phase other than Address and Data (Idle, or a value outside the enum) a byte is
  decoded as a header and starts a transaction, with the reply 0 and no access; and from
  every state whose counters are within the two buffers there are bytes after which the
  register file is invoked again, with no reset.
\<close>

theorem no_confused_state:
  assumes "unat (addr_idx s) \<le> 8" and "unat (data_idx s) \<le> 4"
  shows "(spi_state s \<noteq> STATE_ADDRESS \<and> spi_state s \<noteq> STATE_DATA \<longrightarrow>
            tpm_tis_spi_transfer8 R (d, s) tx =
              Inr (0, (d, s\<lparr>first_byte := ucast tx, data_idx := data_expected_size (ucast tx),
                             spi_state := STATE_ADDRESS\<rparr>), []))
       \<and> (\<exists>txs rs c a. transfer_all R (d, s) txs = Inr (rs, c, [a]))"
proof -
  have "\<exists>txs rs c a. transfer_all R (d, s) txs = Inr (rs, c, [a])"
  proof -
    consider (address) "spi_state s = STATE_ADDRESS"
      | (data) "spi_state s = STATE_DATA"
      | (header) "spi_state s \<noteq> STATE_ADDRESS" "spi_state s \<noteq> STATE_DATA"
      by blast
    then show ?thesis
    proof cases
      case address
      then show ?thesis using assms by (rule address_to_access)
    next
      case data
      with assms(2) data_to_access [of s R d] show ?thesis by blast
    next
      case header
      let ?s1 = "s\<lparr>first_byte := ucast (0 :: 32 word),
                   data_idx := data_expected_size (ucast (0 :: 32 word)),
                   spi_state := STATE_ADDRESS\<rparr>"
      from header have 1: "tpm_tis_spi_transfer8 R (d, s) 0 = Inr (0, (d, ?s1), [])"
        by (rule transfer8_header)
      have "\<exists>txs rs c a. transfer_all R (d, ?s1) txs = Inr (rs, c, [a])"
        by (rule address_to_access) (simp_all add: assms(1) data_expected_size_def)
      then obtain txs rs c a where "transfer_all R (d, ?s1) txs = Inr (rs, c, [a])"
        by blast
      with 1 have "transfer_all R (d, s) (0 # txs) = Inr (0 # rs, c, [] @ [a])"
        by (rule transfer_all_Cons_Inr)
      then have "transfer_all R (d, s) (0 # txs) = Inr (0 # rs, c, [a])"
        by (simp only: append_Nil)
      then show ?thesis by blast
    qed
  qed
  then show ?thesis by (simp add: transfer8_header)
qed

theorem no_confused_state_witness:
  "tpm_tis_spi_transfer8 (const_tis 0)
     ((), \<lparr>spi_state = 3, first_byte = 0, addr = 0, data = 0, data_idx = 0, addr_idx = 0\<rparr>)
     0x81
   = Inr (0, ((), \<lparr>spi_state = STATE_ADDRESS, first_byte = 0x81, addr = 0, data = 0,
                    data_idx = 1, addr_idx = 0\<rparr>), [])
   \<and> (\<exists>txs rs c a. transfer_all (const_tis 0)
        ((), \<lparr>spi_state = 3, first_byte = 0, addr = 0, data = 0, data_idx = 0, addr_idx = 0\<rparr>)
        txs = Inr (rs, c, [a]))"
proof -
  have 1: "unat (addr_idx \<lparr>spi_state = 3, first_byte = 0, addr = 0, data = 0, data_idx = 0,
                           addr_idx = 0\<rparr>) \<le> 8"
    by simp
  have 2: "unat (data_idx \<lparr>spi_state = 3, first_byte = 0, addr = 0, data = 0, data_idx = 0,
                           addr_idx = 0\<rparr>) \<le> 4"
    by simp
  show ?thesis
    using no_confused_state [OF 1 2, where R = "const_tis 0" and d = "()" and tx = "0x81"]
    by (simp add: phase_defs data_expected_size_def)
qed

end
